theory Spec2Isabelle
  imports Main "HOL-Library.Word"
begin

section \<open>Errors\<close>

text \<open>
  Go errors are values. The resolver produces two kinds from the standard library:
  \<open>net.AddrError{Err, Addr}\<close> from \<open>net.SplitHostPort\<close> and
  \<open>strconv.NumError{Func, Num, Err}\<close> from \<open>strconv.Atoi\<close>, whose \<open>Err\<close> is
  \<open>ErrSyntax\<close> or \<open>ErrRange\<close>. Errors of the gRPC transport and of the remote service are
  opaque here and carry their text. \<open>fmt.Errorf("prefix: %w", err)\<close> builds an error that
  wraps \<open>err\<close>: \<open>Wrapped prefix err\<close>.
\<close>

datatype num_err = ErrSyntax | ErrRange

datatype error =
    AddrError string string
  | NumError string string num_err
  | TransportError string
  | Wrapped string error

text \<open>
  The text of a wrapped error is the literal prefix followed by the text of the error it
  wraps. How the library errors at the leaves render is left to the parameter \<open>leaf\<close>.
\<close>

fun Error :: "(error \<Rightarrow> string) \<Rightarrow> error \<Rightarrow> string" where
  "Error leaf (Wrapped p e) = p @ Error leaf e"
| "Error leaf e = leaf e"

fun Unwrap :: "error \<Rightarrow> error option" where
  "Unwrap (Wrapped p e) = Some e"
| "Unwrap e = None"

section \<open>The standard library functions the resolver calls\<close>

subsection \<open>Byte search\<close>

text \<open>
  Go strings are byte sequences, as \<open>string\<close> is here. \<open>IndexByteString\<close> and
  \<open>LastIndexByteString\<close> return \<open>-1\<close> when the byte is absent: \<open>None\<close>.
\<close>

fun IndexByteString :: "string \<Rightarrow> char \<Rightarrow> nat option" where
  "IndexByteString [] c = None"
| "IndexByteString (x # xs) c =
     (if x = c then Some 0 else map_option Suc (IndexByteString xs c))"

definition LastIndexByteString :: "string \<Rightarrow> char \<Rightarrow> nat option" where
  "LastIndexByteString s c =
     (case IndexByteString (rev s) c of
        None \<Rightarrow> None
      | Some k \<Rightarrow> Some (length s - 1 - k))"

subsection \<open>net.SplitHostPort\<close>

definition missingPort :: string where
  "missingPort = ''missing port in address''"

definition tooManyColons :: string where
  "tooManyColons = ''too many colons in address''"

definition addrErr :: "string \<Rightarrow> string \<Rightarrow> error + (string \<times> string)" where
  "addrErr addr why = Inl (AddrError why addr)"

text \<open>
  The tail of \<open>net.SplitHostPort\<close>, shared by its two branches: \<open>j\<close> and \<open>k\<close> are the
  positions from which a stray opening or closing bracket is looked for, \<open>i\<close> is the
  position of the last colon.
\<close>

definition splitTail :: "string \<Rightarrow> string \<Rightarrow> nat \<Rightarrow> nat \<Rightarrow> nat \<Rightarrow> error + (string \<times> string)" where
  "splitTail hostport host i j k =
     (if IndexByteString (drop j hostport) (CHR ''['') \<noteq> None
        then addrErr hostport (''unexpected '' @ [CHR 0x27, CHR ''['', CHR 0x27] @ '' in address'')
      else if IndexByteString (drop k hostport) (CHR '']'') \<noteq> None
        then addrErr hostport (''unexpected '' @ [CHR 0x27, CHR '']'', CHR 0x27] @ '' in address'')
      else Inr (host, drop (i + 1) hostport))"

definition SplitHostPort :: "string \<Rightarrow> error + (string \<times> string)" where
  "SplitHostPort hostport =
     (case LastIndexByteString hostport (CHR '':'') of
        None \<Rightarrow> addrErr hostport missingPort
      | Some i \<Rightarrow>
          if take 1 hostport = ''[''
          then (case IndexByteString hostport (CHR '']'') of
                  None \<Rightarrow> addrErr hostport
                    (''missing '' @ [CHR 0x27, CHR '']'', CHR 0x27] @ '' in address'')
                | Some endb \<Rightarrow>
                    if endb + 1 = length hostport then addrErr hostport missingPort
                    else if endb + 1 = i
                      then splitTail hostport (take (endb - 1) (drop 1 hostport)) i 1 (endb + 1)
                    else if hostport ! (endb + 1) = CHR '':''
                      then addrErr hostport tooManyColons
                    else addrErr hostport missingPort)
          else if IndexByteString (take i hostport) (CHR '':'') \<noteq> None
            then addrErr hostport tooManyColons
          else splitTail hostport (take i hostport) i 0 0)"

subsection \<open>strconv.Atoi\<close>

text \<open>
  Go's \<open>int\<close> is 64 bits wide on the platforms the program is built for: a \<open>64 word\<close>,
  read as two's complement by \<open>sint\<close>.
\<close>

type_synonym go_int = "64 word"

definition isDigit :: "char \<Rightarrow> bool" where
  "isDigit c = (48 \<le> (of_char c :: int) \<and> (of_char c :: int) \<le> 57)"

definition digitVal :: "char \<Rightarrow> int" where
  "digitVal c = (of_char c :: int) - 48"

text \<open>
  The digit loop of \<open>strconv.ParseUint\<close> in base 10 at 64 bits, the running value held
  as an unbounded integer with the range check written out: a byte that is no digit is a
  syntax error, a value that leaves the unsigned 64-bit range a range error, whichever
  comes first from the left.
\<close>

fun parseUintLoop :: "string \<Rightarrow> int \<Rightarrow> num_err + int" where
  "parseUintLoop [] n = Inr n"
| "parseUintLoop (c # cs) n =
     (if \<not> isDigit c then Inl ErrSyntax
      else if 2 ^ 64 \<le> n * 10 + digitVal c then Inl ErrRange
      else parseUintLoop cs (n * 10 + digitVal c))"

text \<open>
  \<open>strconv.Atoi\<close>: an optional sign, then at least one decimal digit, and the value must
  fit the signed 64-bit range. Every failure is a \<open>NumError\<close> with \<open>Func = "Atoi"\<close> and
  the whole input as \<open>Num\<close>.
\<close>

definition Atoi :: "string \<Rightarrow> error + go_int" where
  "Atoi s =
     (let neg = (take 1 s = ''-'');
          body = (if take 1 s = ''-'' \<or> take 1 s = ''+'' then drop 1 s else s)
      in if body = [] then Inl (NumError ''Atoi'' s ErrSyntax)
         else (case parseUintLoop body 0 of
                 Inl e \<Rightarrow> Inl (NumError ''Atoi'' s e)
               | Inr un \<Rightarrow>
                   if \<not> neg \<and> 2 ^ 63 \<le> un then Inl (NumError ''Atoi'' s ErrRange)
                   else if neg \<and> 2 ^ 63 < un then Inl (NumError ''Atoi'' s ErrRange)
                   else Inr (if neg then - (word_of_int un) else word_of_int un)))"

subsection \<open>Decimal formatting: the verb \<open>%d\<close> of fmt.Sprintf\<close>

definition digitChar :: "int \<Rightarrow> char" where
  "digitChar d = ''0123456789'' ! nat d"

function natDec :: "int \<Rightarrow> string" where
  "natDec n = (if n < 10 then [digitChar n] else natDec (n div 10) @ [digitChar (n mod 10)])"
  by pat_completeness auto
termination
  by (relation "measure nat") auto

declare natDec.simps [simp del]

definition formatInt :: "int \<Rightarrow> string" where
  "formatInt v = (if v < 0 then CHR ''-'' # natDec (- v) else natDec v)"

section \<open>The resolver\<close>

record rpcResolver =
  isLocalCluster :: bool
  rpcPort :: go_int

definition NewRPCResolver :: "bool \<Rightarrow> go_int \<Rightarrow> rpcResolver" where
  "NewRPCResolver isLocalHost port = \<lparr>isLocalCluster = isLocalHost, rpcPort = port\<rparr>"

text \<open>
  \<open>rpcResolver.Address\<close>: split the Raft address; outside a local cluster answer the host
  with the configured port; in a local cluster parse the port and answer the host with the
  port plus one, added as Go adds two \<open>int\<close>s.
\<close>

definition Address :: "rpcResolver \<Rightarrow> string \<Rightarrow> error + string" where
  "Address cl raftAddr =
     (case SplitHostPort raftAddr of
        Inl err \<Rightarrow> Inl err
      | Inr (host, port) \<Rightarrow>
          if \<not> isLocalCluster cl
          then Inr (host @ '':'' @ formatInt (sint (rpcPort cl)))
          else (case Atoi port of
                  Inl err \<Rightarrow> Inl err
                | Inr iPort \<Rightarrow> Inr (host @ '':'' @ formatInt (sint (iPort + 1)))))"

section \<open>The network, as the client sees it\<close>

text \<open>
  A \<open>*grpc.ClientConn\<close> is a handle: the number of the successful dial that made it.
  Everything the client does to the outside is appended to a trace of events, in order:
  a call of the resolver, a dial that succeeded (with its target and the new handle) or
  failed, a \<open>Close\<close> of a handle, a remote call over a handle. The lock
  \<open>connLock\<close> and the contexts are not modelled: calls run one after the other.
\<close>

type_synonym conn = nat

datatype rpcMethod = MJoinPeer | MNotifyPeer | MRemovePeer | MApply | MQuery

datatype event =
    Resolved string
  | Dialed string conn
  | DialFailed string
  | Closed conn
  | Invoked rpcMethod conn

text \<open>
  What the client cannot decide is a parameter: whether a dial fails (it may depend on
  everything that happened before, on the target and on whether the retry policy
  \<open>serviceConfig\<close> is attached), and what a remote call answers.
\<close>

record ('req, 'resp) env =
  dialError :: "event list \<Rightarrow> bool \<Rightarrow> string \<Rightarrow> error option"
  invoke :: "event list \<Rightarrow> rpcMethod \<Rightarrow> conn \<Rightarrow> 'req \<Rightarrow> error + 'resp"

fun isDialed :: "event \<Rightarrow> bool" where
  "isDialed (Dialed t h) = True"
| "isDialed e = False"

definition freshConn :: "event list \<Rightarrow> conn" where
  "freshConn tr = length (filter isDialed tr)"

text \<open>
  \<open>grpc.Dial\<close> and \<open>grpc.DialContext\<close>: a new handle, or an error and no handle
  (the library returns a nil connection with every error).
\<close>

definition grpcDial ::
  "('req, 'resp) env \<Rightarrow> bool \<Rightarrow> string \<Rightarrow> event list \<Rightarrow> (error + conn) \<times> event list" where
  "grpcDial ev withServiceConfig addr tr =
     (case dialError ev tr withServiceConfig addr of
        Some err \<Rightarrow> (Inl err, tr @ [DialFailed addr])
      | None \<Rightarrow> (Inr (freshConn tr), tr @ [Dialed addr (freshConn tr)]))"

definition connClose :: "conn \<Rightarrow> event list \<Rightarrow> event list" where
  "connClose h tr = tr @ [Closed h]"

section \<open>The client\<close>

text \<open>
  The resolver behind the interface \<open>rpcAddressResolver\<close> is a function from the Raft
  address to the RPC address or an error. \<open>leaderConn\<close> is a pointer: \<open>None\<close> is nil.
\<close>

record Client =
  rpc :: "string \<Rightarrow> error + string"
  leaderAddr :: string
  leaderConn :: "conn option"

definition NewClient :: "(string \<Rightarrow> error + string) \<Rightarrow> Client" where
  "NewClient r = \<lparr>rpc = r, leaderAddr = [], leaderConn = None\<rparr>"

text \<open>
  \<open>Client.getConn\<close>. The cached handle is returned when there is one and the address is
  the cached one (the guard \<open>leaderConn != nil && leaderAddress == leaderAddr\<close>: the
  handle cached for the address asked for, if any). Otherwise a cached handle is closed, the
  address is resolved, and the result of the dial is stored in \<open>leaderConn\<close> before the
  error is looked at: a failed dial leaves nil there. \<open>leaderAddr\<close> is written only after
  a dial that succeeded.
\<close>

definition getConn ::
  "('req, 'resp) env \<Rightarrow> string \<Rightarrow> Client \<Rightarrow> event list \<Rightarrow> (error + conn) \<times> Client \<times> event list" where
  "getConn ev leaderAddress cl tr =
     (case (if leaderAddress = leaderAddr cl then leaderConn cl else None) of
        Some h \<Rightarrow> (Inr h, cl, tr)
      | None \<Rightarrow>
          (let tr1 = (case leaderConn cl of Some h \<Rightarrow> connClose h tr | None \<Rightarrow> tr)
           in case rpc cl leaderAddress of
                Inl err \<Rightarrow>
                  (Inl (Wrapped ''resolve address: '' err), cl, tr1 @ [Resolved leaderAddress])
              | Inr addr \<Rightarrow>
                  (case grpcDial ev True addr (tr1 @ [Resolved leaderAddress]) of
                     (Inl err, tr2) \<Rightarrow>
                       (Inl (Wrapped ''dial: '' err), cl\<lparr>leaderConn := None\<rparr>, tr2)
                   | (Inr h, tr2) \<Rightarrow>
                       (Inr h, cl\<lparr>leaderConn := Some h, leaderAddr := leaderAddress\<rparr>, tr2))))"

text \<open>
  The four operations that go through the cache: on an error of \<open>getConn\<close> the error is
  returned as it is, otherwise the result of the remote call.
\<close>

definition Join ::
  "('req, 'resp) env \<Rightarrow> string \<Rightarrow> 'req \<Rightarrow> Client \<Rightarrow> event list
     \<Rightarrow> (error + 'resp) \<times> Client \<times> event list" where
  "Join ev leaderAddress req cl tr =
     (case getConn ev leaderAddress cl tr of
        (Inl err, cl1, tr1) \<Rightarrow> (Inl err, cl1, tr1)
      | (Inr h, cl1, tr1) \<Rightarrow> (invoke ev tr1 MJoinPeer h req, cl1, tr1 @ [Invoked MJoinPeer h]))"

definition Remove ::
  "('req, 'resp) env \<Rightarrow> string \<Rightarrow> 'req \<Rightarrow> Client \<Rightarrow> event list
     \<Rightarrow> (error + 'resp) \<times> Client \<times> event list" where
  "Remove ev leaderAddress req cl tr =
     (case getConn ev leaderAddress cl tr of
        (Inl err, cl1, tr1) \<Rightarrow> (Inl err, cl1, tr1)
      | (Inr h, cl1, tr1) \<Rightarrow> (invoke ev tr1 MRemovePeer h req, cl1, tr1 @ [Invoked MRemovePeer h]))"

definition Apply ::
  "('req, 'resp) env \<Rightarrow> string \<Rightarrow> 'req \<Rightarrow> Client \<Rightarrow> event list
     \<Rightarrow> (error + 'resp) \<times> Client \<times> event list" where
  "Apply ev leaderAddress req cl tr =
     (case getConn ev leaderAddress cl tr of
        (Inl err, cl1, tr1) \<Rightarrow> (Inl err, cl1, tr1)
      | (Inr h, cl1, tr1) \<Rightarrow> (invoke ev tr1 MApply h req, cl1, tr1 @ [Invoked MApply h]))"

definition Query ::
  "('req, 'resp) env \<Rightarrow> string \<Rightarrow> 'req \<Rightarrow> Client \<Rightarrow> event list
     \<Rightarrow> (error + 'resp) \<times> Client \<times> event list" where
  "Query ev leaderAddress req cl tr =
     (case getConn ev leaderAddress cl tr of
        (Inl err, cl1, tr1) \<Rightarrow> (Inl err, cl1, tr1)
      | (Inr h, cl1, tr1) \<Rightarrow> (invoke ev tr1 MQuery h req, cl1, tr1 @ [Invoked MQuery h]))"

text \<open>
  \<open>Client.Notify\<close> resolves and dials for itself, without the retry policy, and never
  touches \<open>leaderAddr\<close> or \<open>leaderConn\<close>. The deferred \<open>conn.Close()\<close> runs after the
  remote call has returned, whatever it returned.
\<close>

definition Notify ::
  "('req, 'resp) env \<Rightarrow> string \<Rightarrow> 'req \<Rightarrow> Client \<Rightarrow> event list
     \<Rightarrow> (error + 'resp) \<times> Client \<times> event list" where
  "Notify ev rAddr req cl tr =
     (case rpc cl rAddr of
        Inl err \<Rightarrow> (Inl (Wrapped ''resolve address: '' err), cl, tr @ [Resolved rAddr])
      | Inr addr \<Rightarrow>
          (case grpcDial ev False addr (tr @ [Resolved rAddr]) of
             (Inl err, tr1) \<Rightarrow> (Inl (Wrapped ''dial: '' err), cl, tr1)
           | (Inr h, tr1) \<Rightarrow>
               (invoke ev tr1 MNotifyPeer h req, cl,
                connClose h (tr1 @ [Invoked MNotifyPeer h]))))"

text \<open>\<open>Client.Close\<close> closes the cached handle when there is one. It writes no field.\<close>

definition Close :: "Client \<Rightarrow> event list \<Rightarrow> Client \<times> event list" where
  "Close cl tr =
     (case leaderConn cl of
        Some h \<Rightarrow> (cl, connClose h tr)
      | None \<Rightarrow> (cl, tr))"

section \<open>Sequences of operations\<close>

datatype 'req op =
    DoJoin string 'req
  | DoNotify string 'req
  | DoRemove string 'req
  | DoApply string 'req
  | DoQuery string 'req
  | DoClose

fun exec ::
  "('req, 'resp) env \<Rightarrow> 'req op \<Rightarrow> Client \<times> event list \<Rightarrow> Client \<times> event list" where
  "exec ev (DoJoin a req) (cl, tr) = snd (Join ev a req cl tr)"
| "exec ev (DoNotify a req) (cl, tr) = snd (Notify ev a req cl tr)"
| "exec ev (DoRemove a req) (cl, tr) = snd (Remove ev a req cl tr)"
| "exec ev (DoApply a req) (cl, tr) = snd (Apply ev a req cl tr)"
| "exec ev (DoQuery a req) (cl, tr) = snd (Query ev a req cl tr)"
| "exec ev DoClose (cl, tr) = Close cl tr"

fun run ::
  "('req, 'resp) env \<Rightarrow> 'req op list \<Rightarrow> Client \<times> event list \<Rightarrow> Client \<times> event list" where
  "run ev [] st = st"
| "run ev (x # xs) st = run ev xs (exec ev x st)"

text \<open>The same address asked for \<open>n\<close> times in a row, with every answer.\<close>

fun getConnN ::
  "('req, 'resp) env \<Rightarrow> nat \<Rightarrow> string \<Rightarrow> Client \<Rightarrow> event list
     \<Rightarrow> (error + conn) list \<times> Client \<times> event list" where
  "getConnN ev 0 a cl tr = ([], cl, tr)"
| "getConnN ev (Suc n) a cl tr =
     (case getConn ev a cl tr of
        (r, cl1, tr1) \<Rightarrow>
          (case getConnN ev n a cl1 tr1 of
             (rs, cl2, tr2) \<Rightarrow> (r # rs, cl2, tr2)))"

section \<open>Notions the statements use\<close>

subsection \<open>Addresses and integers, described without the parser\<close>

text \<open>
  A part of an address is plain when it holds no colon and no square bracket. The strings
  \<open>net.SplitHostPort\<close> accepts turn out to be \<open>host:port\<close> with both parts plain, and
  \<open>[host]:port\<close> with no bracket inside \<open>host\<close> and a plain \<open>port\<close>.
\<close>

definition plainPart :: "string \<Rightarrow> bool" where
  "plainPart x = (CHR '':'' \<notin> set x \<and> CHR ''['' \<notin> set x \<and> CHR '']'' \<notin> set x)"

definition noBrackets :: "string \<Rightarrow> bool" where
  "noBrackets x = (CHR ''['' \<notin> set x \<and> CHR '']'' \<notin> set x)"

text \<open>
  A string is a Go \<open>int\<close> when, after one optional sign, it is a non-empty run of decimal
  digits whose signed value lies in the 64-bit range.
\<close>

definition unsignedPart :: "string \<Rightarrow> string" where
  "unsignedPart s = (if take 1 s = ''-'' \<or> take 1 s = ''+'' then drop 1 s else s)"

definition decimalValue :: "string \<Rightarrow> int" where
  "decimalValue s = foldl (\<lambda>a c. a * 10 + digitVal c) 0 s"

definition signedValue :: "string \<Rightarrow> int" where
  "signedValue s =
     (if take 1 s = ''-'' then - decimalValue (unsignedPart s) else decimalValue (unsignedPart s))"

definition isGoInt :: "string \<Rightarrow> bool" where
  "isGoInt s =
     (unsignedPart s \<noteq> [] \<and> list_all isDigit (unsignedPart s) \<and>
      - (2 ^ 63) \<le> signedValue s \<and> signedValue s < 2 ^ 63)"

subsection \<open>The cache\<close>

text \<open>
  The cache is coherent when a handle that is present has been issued by a dial of the
  trace, and that dial went to the address the resolver gives for \<open>leaderAddr\<close>: handle
  and address describe the same peer. Nothing is asked of \<open>leaderAddr\<close> while no handle
  is present.
\<close>

definition cacheOK :: "Client \<Rightarrow> event list \<Rightarrow> bool" where
  "cacheOK cl tr =
     (case leaderConn cl of
        None \<Rightarrow> True
      | Some h \<Rightarrow>
          h < freshConn tr \<and>
          (case rpc cl (leaderAddr cl) of
             Inl err \<Rightarrow> False
           | Inr addr \<Rightarrow> Dialed addr h \<in> set tr))"

text \<open>
  The invariant in the words of the specification: the connection is present exactly
  when the bound address is (a Go string is absent when it is empty), and the two describe
  the same address.
\<close>

definition cacheInvSpec :: "Client \<Rightarrow> event list \<Rightarrow> bool" where
  "cacheInvSpec cl tr =
     (((leaderConn cl \<noteq> None) = (leaderAddr cl \<noteq> [])) \<and>
      (case leaderConn cl of
         None \<Rightarrow> True
       | Some h \<Rightarrow>
           (case rpc cl (leaderAddr cl) of
              Inl err \<Rightarrow> False
            | Inr addr \<Rightarrow> Dialed addr h \<in> set tr)))"

text \<open>The state \<open>Empty\<close> of the specification: no bound address, no connection.\<close>

definition cacheEmpty :: "Client \<Rightarrow> bool" where
  "cacheEmpty cl = (leaderAddr cl = [] \<and> leaderConn cl = None)"

subsection \<open>Concrete surroundings for the examples\<close>

text \<open>
  A resolver in fixed-port mode with service port 8300, a network where every dial
  succeeds and every remote call answers, and one where the peer \<open>10.0.0.6\<close> cannot be
  dialed.
\<close>

definition fixedResolver :: "string \<Rightarrow> error + string" where
  "fixedResolver = Address (NewRPCResolver False 8300)"

definition calmEnv :: "(unit, unit) env" where
  "calmEnv = \<lparr>dialError = (\<lambda>tr policy addr. None), invoke = (\<lambda>tr m h req. Inr ())\<rparr>"

definition downEnv :: "(unit, unit) env" where
  "downEnv =
     \<lparr>dialError = (\<lambda>tr policy addr.
        if addr = ''10.0.0.6:8300'' then Some (TransportError ''unreachable'') else None),
      invoke = (\<lambda>tr m h req. Inl (TransportError ''rejected''))\<rparr>"

subsection \<open>States of the examples\<close>

text \<open>
  A client bound by one \<open>Apply\<close>; the same after \<open>Close\<close>; a client whose second
  \<open>Apply\<close> went to the peer that cannot be dialed; two calls of \<open>getConn\<close> in a row.
\<close>

definition boundState :: "Client \<times> event list" where
  "boundState = run calmEnv [DoApply ''10.0.0.5:7000'' ()] (NewClient fixedResolver, [])"

definition afterClose :: "Client \<times> event list" where
  "afterClose = run calmEnv [DoApply ''10.0.0.5:7000'' (), DoClose] (NewClient fixedResolver, [])"

definition afterFailedDial :: "Client \<times> event list" where
  "afterFailedDial =
     run downEnv [DoApply ''10.0.0.5:7000'' (), DoApply ''10.0.0.6:7000'' ()]
       (NewClient fixedResolver, [])"

definition firstCall :: "(error + conn) \<times> Client \<times> event list" where
  "firstCall = getConn calmEnv ''10.0.0.5:7000'' (NewClient fixedResolver) []"

definition secondCall :: "(error + conn) \<times> Client \<times> event list" where
  "secondCall = getConn calmEnv ''10.0.0.7:7000'' (fst (snd firstCall)) (snd (snd firstCall))"

section \<open>The standard library functions: what they accept\<close>

lemma IndexByteString_None: "(IndexByteString s c = None) = (c \<notin> set s)"
  by (induction s) auto

lemma IndexByteString_Some:
  "IndexByteString s c = Some k \<Longrightarrow> k < length s \<and> s ! k = c \<and> c \<notin> set (take k s)"
proof (induction s arbitrary: k)
  case Nil
  then show ?case by simp
next
  case (Cons x xs)
  show ?case
  proof (cases "x = c")
    case True
    with Cons.prems show ?thesis by simp
  next
    case False
    with Cons.prems obtain k' where k': "IndexByteString xs c = Some k'" "k = Suc k'"
      by auto
    from Cons.IH [OF k'(1)] False k'(2) show ?thesis by simp
  qed
qed

lemma IndexByteString_append:
  "c \<notin> set h \<Longrightarrow> IndexByteString (h @ c # p) c = Some (length h)"
  by (induction h) auto

lemma LastIndexByteString_None: "(LastIndexByteString s c = None) = (c \<notin> set s)"
  using IndexByteString_None [of "rev s" c]
  by (auto simp: LastIndexByteString_def split: option.splits)

lemma LastIndexByteString_append:
  "c \<notin> set p \<Longrightarrow> LastIndexByteString (h @ c # p) c = Some (length h)"
  using IndexByteString_append [of c "rev p" "rev h"]
  by (simp add: LastIndexByteString_def)

lemma LastIndexByteString_Some:
  assumes "LastIndexByteString s c = Some i"
  shows "i < length s \<and> s ! i = c \<and> c \<notin> set (drop (Suc i) s)"
proof -
  from assms obtain k where k: "IndexByteString (rev s) c = Some k" "i = length s - 1 - k"
    by (auto simp: LastIndexByteString_def split: option.splits)
  from IndexByteString_Some [OF k(1)]
  have a: "k < length s" and b: "rev s ! k = c" and d: "c \<notin> set (take k (rev s))"
    by simp_all
  from a k(2) have i: "i < length s" "length s - Suc i = k" "length s - k = Suc i" by arith+
  from b a i have "s ! i = c" by (simp add: rev_nth k(2))
  moreover from d have "c \<notin> set (drop (length s - k) s)" by (simp add: take_rev)
  ultimately show ?thesis using i by simp
qed


lemma SplitHostPort_plain:
  assumes h: "plainPart h" and p: "plainPart p"
  shows "SplitHostPort (h @ CHR '':'' # p) = Inr (h, p)"
proof -
  let ?s = "h @ CHR '':'' # p"
  from p have i: "LastIndexByteString ?s (CHR '':'') = Some (length h)"
    by (simp add: LastIndexByteString_append plainPart_def)
  from h have nb: "take 1 ?s \<noteq> ''[''"
    by (cases h) (auto simp: plainPart_def)
  from h have nc: "IndexByteString (take (length h) ?s) (CHR '':'') = None"
    by (simp add: IndexByteString_None plainPart_def)
  from h p have t: "splitTail ?s h (length h) 0 0 = Inr (h, p)"
    by (simp add: splitTail_def IndexByteString_None plainPart_def)
  from h have tk: "take (length h) ?s = h" by simp
  show ?thesis
    unfolding SplitHostPort_def using nb nc t by (simp only: i option.case tk if_False if_True simp_thms)
qed

lemma SplitHostPort_bracket:
  assumes h: "noBrackets h" and p: "plainPart p"
  shows "SplitHostPort (CHR ''['' # h @ CHR '']'' # CHR '':'' # p) = Inr (h, p)"
proof -
  let ?s = "CHR ''['' # h @ CHR '']'' # CHR '':'' # p"
  have "LastIndexByteString ((CHR ''['' # h @ [CHR '']'']) @ CHR '':'' # p) (CHR '':'')
          = Some (length (CHR ''['' # h @ [CHR '']'']))"
    using p by (intro LastIndexByteString_append) (simp add: plainPart_def)
  then have i: "LastIndexByteString ?s (CHR '':'') = Some (length h + 2)" by simp
  have "IndexByteString ((CHR ''['' # h) @ CHR '']'' # CHR '':'' # p) (CHR '']'')
          = Some (length (CHR ''['' # h))"
    using h by (intro IndexByteString_append) (simp add: noBrackets_def)
  then have e: "IndexByteString ?s (CHR '']'') = Some (length h + 1)" by simp
  have b: "take 1 ?s = ''[''" by simp
  from h p have t: "splitTail ?s h (length h + 2) 1 (length h + 1 + 1) = Inr (h, p)"
    by (simp add: splitTail_def IndexByteString_None plainPart_def noBrackets_def)
  show ?thesis
    unfolding SplitHostPort_def i e b using t by simp
qed


lemma splitTail_Inr:
  "splitTail s host i j k = Inr (h, p) \<Longrightarrow>
     CHR ''['' \<notin> set (drop j s) \<and> CHR '']'' \<notin> set (drop k s) \<and> h = host \<and> p = drop (Suc i) s"
  by (auto simp: splitTail_def addrErr_def IndexByteString_None split: if_splits)

lemma SplitHostPort_Inr:
  assumes ok: "SplitHostPort s = Inr (h, p)"
  shows "(s = h @ CHR '':'' # p \<and> plainPart h \<and> plainPart p) \<or>
         (s = CHR ''['' # h @ CHR '']'' # CHR '':'' # p \<and> noBrackets h \<and> plainPart p)"
proof -
  from ok obtain i where i: "LastIndexByteString s (CHR '':'') = Some i"
    by (cases "LastIndexByteString s (CHR '':'')") (auto simp: SplitHostPort_def addrErr_def)
  from LastIndexByteString_Some [OF i]
  have il: "i < length s" and ic: "s ! i = CHR '':''" and ip: "CHR '':'' \<notin> set (drop (Suc i) s)"
    by simp_all
  from il ic have dec: "s = take i s @ CHR '':'' # drop (Suc i) s"
    using id_take_nth_drop [of i s] by simp
  show ?thesis
  proof (cases "take 1 s = ''[''")
    case False
    with ok i have nc: "IndexByteString (take i s) (CHR '':'') = None"
      and t: "splitTail s (take i s) i 0 0 = Inr (h, p)"
      by (auto simp: SplitHostPort_def addrErr_def split: if_splits)
    from splitTail_Inr [OF t]
    have a: "CHR ''['' \<notin> set s" "CHR '']'' \<notin> set s" "h = take i s" "p = drop (Suc i) s"
      by simp_all
    have sub: "set (take i s) \<subseteq> set s" "set (drop (Suc i) s) \<subseteq> set s"
      by (rule set_take_subset, rule set_drop_subset)
    from nc have "CHR '':'' \<notin> set (take i s)" by (simp add: IndexByteString_None)
    with a sub ip have "plainPart h" "plainPart p" by (auto simp: plainPart_def)
    moreover from dec a have "s = h @ CHR '':'' # p" by simp
    ultimately show ?thesis by simp
  next
    case True
    then obtain s' where s': "s = CHR ''['' # s'" by (cases s) auto
    from ok i True obtain e where e: "IndexByteString s (CHR '']'') = Some e"
      and ei: "e + 1 = i"
      and t: "splitTail s (take (e - 1) (drop 1 s)) i 1 (e + 1) = Inr (h, p)"
      by (auto simp: SplitHostPort_def addrErr_def split: option.splits if_splits)
    from splitTail_Inr [OF t]
    have a: "CHR ''['' \<notin> set s'" "CHR '']'' \<notin> set (drop (Suc e) s)"
      "h = take (e - 1) s'" "p = drop (Suc i) s"
      by (simp_all add: s')
    from IndexByteString_Some [OF e]
    have el: "e < length s" and ec: "s ! e = CHR '']''" and ep: "CHR '']'' \<notin> set (take e s)"
      by simp_all
    from ec s' have e0: "e \<noteq> 0" by (cases e) auto
    then obtain e' where e': "e = Suc e'" by (cases e) auto
    from e' s' a have tk: "take e s = CHR ''['' # h" by simp
    from el ec have "s = take e s @ CHR '']'' # drop (Suc e) s"
      using id_take_nth_drop [of e s] by simp
    moreover from il ic ei a have "drop (Suc e) s = CHR '':'' # p"
      using Cons_nth_drop_Suc [of i s] by simp
    ultimately have form: "s = CHR ''['' # h @ CHR '']'' # CHR '':'' # p"
      using tk by simp
    have "set h \<subseteq> set s'" unfolding a(3) by (rule set_take_subset)
    with a(1) ep tk have nb: "noBrackets h" by (auto simp: noBrackets_def)
    have "set p \<subseteq> set (drop (Suc e) s)" unfolding a(4)
      using ei set_drop_subset_set_drop [of "Suc e" "Suc i" s] by simp
    moreover have "set (drop (Suc e) s) \<subseteq> set s'"
      using set_drop_subset [of e s'] by (simp add: s')
    ultimately have "plainPart p" using a(1,2) ip a(4) by (auto simp: plainPart_def)
    with form nb show ?thesis by simp
  qed
qed

lemma SplitHostPort_iff:
  "SplitHostPort s = Inr (h, p) \<longleftrightarrow>
     (s = h @ CHR '':'' # p \<and> plainPart h \<and> plainPart p) \<or>
     (s = CHR ''['' # h @ CHR '']'' # CHR '':'' # p \<and> noBrackets h \<and> plainPart p)"
  using SplitHostPort_Inr SplitHostPort_plain SplitHostPort_bracket by blast


lemma digitVal_nonneg: "isDigit c \<Longrightarrow> 0 \<le> digitVal c"
  by (simp add: isDigit_def digitVal_def)

lemma foldl_digits_mono:
  "list_all isDigit cs \<Longrightarrow> 0 \<le> a \<Longrightarrow> a \<le> foldl (\<lambda>a c. a * 10 + digitVal c) a cs"
proof (induction cs arbitrary: a)
  case Nil
  then show ?case by simp
next
  case (Cons c cs)
  then have d: "0 \<le> digitVal c" and r: "list_all isDigit cs"
    by (simp_all add: digitVal_nonneg)
  from d Cons.prems(2) have "a \<le> a * 10 + digitVal c" by simp
  also have "\<dots> \<le> foldl (\<lambda>a c. a * 10 + digitVal c) (a * 10 + digitVal c) cs"
    using Cons.IH [OF r, of "a * 10 + digitVal c"] d Cons.prems(2) by simp
  finally show ?case by simp
qed

lemma parseUintLoop_iff:
  "0 \<le> n \<Longrightarrow> n < 2 ^ 64 \<Longrightarrow>
   parseUintLoop s n = Inr m \<longleftrightarrow>
     list_all isDigit s \<and> m = foldl (\<lambda>a c. a * 10 + digitVal c) n s \<and> m < 2 ^ 64"
proof (induction s arbitrary: n)
  case Nil
  then show ?case by auto
next
  case (Cons c cs)
  show ?case
  proof (cases "isDigit c")
    case False
    then show ?thesis by simp
  next
    case True
    let ?n = "n * 10 + digitVal c"
    from True Cons.prems have n': "0 \<le> ?n" using digitVal_nonneg [of c] by simp
    show ?thesis
    proof (cases "2 ^ 64 \<le> ?n")
      case big: True
      have "\<not> (list_all isDigit cs \<and> m = foldl (\<lambda>a c. a * 10 + digitVal c) ?n cs \<and> m < 2 ^ 64)"
        using foldl_digits_mono [of cs ?n] n' big by auto
      with True big show ?thesis by simp
    next
      case False
      with True Cons.IH [OF n'] show ?thesis by simp
    qed
  qed
qed


lemma Atoi_unfold:
  "Atoi s =
     (if unsignedPart s = [] then Inl (NumError ''Atoi'' s ErrSyntax)
      else case parseUintLoop (unsignedPart s) 0 of
             Inl e \<Rightarrow> Inl (NumError ''Atoi'' s e)
           | Inr un \<Rightarrow>
               if (take 1 s \<noteq> ''-'' \<and> 2 ^ 63 \<le> un) \<or> (take 1 s = ''-'' \<and> 2 ^ 63 < un)
               then Inl (NumError ''Atoi'' s ErrRange)
               else Inr (if take 1 s = ''-'' then - word_of_int un else word_of_int un))"
  unfolding Atoi_def unsignedPart_def Let_def by (simp split: sum.splits)

lemma Atoi_Inr_iff:
  "Atoi s = Inr n \<longleftrightarrow> isGoInt s \<and> n = word_of_int (signedValue s)"
proof -
  define neg where "neg \<longleftrightarrow> take 1 s = ''-''"
  define body where "body = unsignedPart s"
  define v where "v = decimalValue body"
  have A: "Atoi s =
     (if body = [] then Inl (NumError ''Atoi'' s ErrSyntax)
      else case parseUintLoop body 0 of
             Inl e \<Rightarrow> Inl (NumError ''Atoi'' s e)
           | Inr un \<Rightarrow>
               if (\<not> neg \<and> 2 ^ 63 \<le> un) \<or> (neg \<and> 2 ^ 63 < un)
               then Inl (NumError ''Atoi'' s ErrRange)
               else Inr (if neg then - word_of_int un else word_of_int un))"
    unfolding neg_def body_def by (rule Atoi_unfold)
  have sv: "signedValue s = (if neg then - v else v)"
    by (simp add: signedValue_def neg_def body_def v_def)
  have gi: "isGoInt s \<longleftrightarrow>
      body \<noteq> [] \<and> list_all isDigit body \<and> - (2 ^ 63) \<le> signedValue s \<and> signedValue s < 2 ^ 63"
    by (simp add: isGoInt_def body_def)
  have loop: "\<And>m. parseUintLoop body 0 = Inr m \<longleftrightarrow> list_all isDigit body \<and> m = v \<and> m < 2 ^ 64"
    using parseUintLoop_iff [of 0 body] by (simp add: decimalValue_def v_def)
  have nonneg: "list_all isDigit body \<Longrightarrow> 0 \<le> v"
    using foldl_digits_mono [of body 0] by (simp add: decimalValue_def v_def)
  show ?thesis
  proof (cases "body = []")
    case True
    with A gi show ?thesis by simp
  next
    case ne: False
    show ?thesis
    proof (cases "parseUintLoop body 0")
      case (Inl e)
      with loop have "\<not> (list_all isDigit body \<and> v < 2 ^ 64)" by auto
      then have "\<not> isGoInt s" using nonneg gi sv by (cases neg) auto
      with A ne Inl show ?thesis by simp
    next
      case (Inr un)
      with loop have un: "list_all isDigit body" "un = v" by auto
      from nonneg un have v0: "0 \<le> v" by simp
      from A ne Inr un have B: "Atoi s =
          (if (\<not> neg \<and> 2 ^ 63 \<le> v) \<or> (neg \<and> 2 ^ 63 < v)
           then Inl (NumError ''Atoi'' s ErrRange)
           else Inr (if neg then - word_of_int v else word_of_int v))" by simp
      show ?thesis
      proof (cases neg)
        case True
        with B gi sv un ne v0 show ?thesis by auto
      next
        case False
        with B gi sv un ne v0 show ?thesis by auto
      qed
    qed
  qed
qed

lemma Atoi_isl_iff: "isl (Atoi s) \<longleftrightarrow> \<not> isGoInt s"
  using Atoi_Inr_iff [of s] by (cases "Atoi s") auto

lemma isDigit_plain: "isDigit c \<Longrightarrow> c \<noteq> CHR '':'' \<and> c \<noteq> CHR ''['' \<and> c \<noteq> CHR '']''"
  by (auto simp: isDigit_def)

lemma isGoInt_plainPart:
  assumes "isGoInt p"
  shows "plainPart p"
proof -
  from assms have d: "list_all isDigit (unsignedPart p)" by (simp add: isGoInt_def)
  then have u: "plainPart (unsignedPart p)"
    using isDigit_plain by (auto simp: plainPart_def list_all_iff)
  show ?thesis
  proof (cases "take 1 p = ''-'' \<or> take 1 p = ''+''")
    case False
    with u show ?thesis by (simp add: unsignedPart_def)
  next
    case True
    then obtain c b where cb: "p = c # b" "c = CHR ''-'' \<or> c = CHR ''+''"
      by (cases p) auto
    then have "unsignedPart p = b" by (auto simp: unsignedPart_def)
    with u cb show ?thesis by (auto simp: plainPart_def)
  qed
qed

lemma sint_succ:
  assumes "- (2 ^ 63) \<le> v" "v < 2 ^ 63 - 1"
  shows "sint (word_of_int v + 1 :: 64 word) = v + 1"
proof -
  have e: "(word_of_int v + 1 :: 64 word) = word_of_int (v + 1)" by simp
  have "sint (word_of_int (v + 1) :: 64 word) = signed_take_bit (LENGTH(64) - 1) (v + 1)"
    by (rule sint_sbintrunc')
  also have "\<dots> = signed_take_bit 63 (v + 1)" by simp
  also have "\<dots> = v + 1"
    using assms by (intro signed_take_bit_int_eq_self) simp_all
  finally show ?thesis unfolding e .
qed

lemma sint_succ_max: "sint (word_of_int (2 ^ 63 - 1) + 1 :: 64 word) = - (2 ^ 63)"
  by simp

section \<open>The resolver: results\<close>




text \<open>
  C7. The resolver fails exactly when \<open>net.SplitHostPort\<close> refuses the input, or, in a
  local cluster only, when \<open>strconv.Atoi\<close> refuses the port. The inputs the split accepts
  are exactly \<open>host:port\<close> with plain parts and \<open>[host]:port\<close>; the ports \<open>Atoi\<close>
  accepts are exactly the signed decimal numerals of the 64-bit range. Outside a local
  cluster the port is never parsed: a well-formed pair always resolves.
\<close>

theorem Address_fails_iff:
  "(isl (Address cl raftAddr) \<longleftrightarrow>
      isl (SplitHostPort raftAddr) \<or>
      (isLocalCluster cl \<and> (\<exists>host port. SplitHostPort raftAddr = Inr (host, port) \<and> isl (Atoi port)))) \<and>
   (SplitHostPort raftAddr = Inr (h, p) \<longleftrightarrow>
      (raftAddr = h @ CHR '':'' # p \<and> plainPart h \<and> plainPart p) \<or>
      (raftAddr = CHR ''['' # h @ CHR '']'' # CHR '':'' # p \<and> noBrackets h \<and> plainPart p)) \<and>
   (isl (Atoi p) \<longleftrightarrow> \<not> isGoInt p) \<and>
   (\<not> isLocalCluster cl \<and> SplitHostPort raftAddr = Inr (h, p) \<longrightarrow> \<not> isl (Address cl raftAddr))"
proof -
  have main: "isl (Address cl raftAddr) \<longleftrightarrow>
      isl (SplitHostPort raftAddr) \<or>
      (isLocalCluster cl \<and> (\<exists>host port. SplitHostPort raftAddr = Inr (host, port) \<and> isl (Atoi port)))"
  proof (cases "SplitHostPort raftAddr")
    case (Inl e)
    then show ?thesis by (simp add: Address_def)
  next
    case (Inr hp)
    obtain host port where hp: "hp = (host, port)" by (cases hp)
    show ?thesis
      using Inr hp by (cases "Atoi port") (simp_all add: Address_def)
  qed
  have fixed: "\<not> isl (Address cl raftAddr)"
    if "\<not> isLocalCluster cl" "SplitHostPort raftAddr = Inr (h, p)"
    using that by (simp add: Address_def)
  from main fixed SplitHostPort_iff [of raftAddr h p] Atoi_isl_iff [of p]
  show ?thesis by blast
qed

theorem Address_fails_iff_witness:
  "isl (SplitHostPort ''not-an-address'') \<and>
   isl (Address (NewRPCResolver False 8300) ''not-an-address'') \<and>
   isl (Address (NewRPCResolver True 8300) ''not-an-address'') \<and>
   SplitHostPort ''10.0.0.5:http'' = Inr (''10.0.0.5'', ''http'') \<and>
   \<not> isGoInt ''http'' \<and>
   isl (Address (NewRPCResolver True 8300) ''10.0.0.5:http'') \<and>
   \<not> isl (Address (NewRPCResolver False 8300) ''10.0.0.5:http'')"
proof -
  have bad: "isl (SplitHostPort ''not-an-address'')" by code_simp
  have s: "SplitHostPort ''10.0.0.5:http'' = Inr (''10.0.0.5'', ''http'')" by code_simp
  have n: "\<not> isGoInt ''http''" by code_simp
  have m: "isLocalCluster (NewRPCResolver True 8300)" "\<not> isLocalCluster (NewRPCResolver False 8300)"
    by (simp_all add: NewRPCResolver_def)
  from Address_fails_iff [of "NewRPCResolver False 8300" "''not-an-address''" "[]" "[]"] bad
  have 1: "isl (Address (NewRPCResolver False 8300) ''not-an-address'')" by blast
  from Address_fails_iff [of "NewRPCResolver True 8300" "''not-an-address''" "[]" "[]"] bad
  have 2: "isl (Address (NewRPCResolver True 8300) ''not-an-address'')" by blast
  from Address_fails_iff [of "NewRPCResolver True 8300" "''10.0.0.5:http''" "''10.0.0.5''" "''http''"]
    s n m(1)
  have 3: "isl (Address (NewRPCResolver True 8300) ''10.0.0.5:http'')" by blast
  from Address_fails_iff [of "NewRPCResolver False 8300" "''10.0.0.5:http''" "''10.0.0.5''" "''http''"]
    s m(2)
  have 4: "\<not> isl (Address (NewRPCResolver False 8300) ''10.0.0.5:http'')" by blast
  from bad s n 1 2 3 4 show ?thesis by blast
qed

text \<open>
  C10, as the program has it. In a local cluster the resolver checks no port range: for
  every well-formed address with host \<open>h\<close> and a port \<open>p\<close> that is a Go \<open>int\<close> below the
  largest one, negative or above 65535 alike, it answers \<open>h\<close>, a colon and \<open>p + 1\<close>; so
  it does for \<open>h:p\<close> written out with a plain \<open>h\<close>.
\<close>

theorem Address_offset_unchecked:
  assumes int: "isGoInt p" and below: "signedValue p < 2 ^ 63 - 1"
  shows "(SplitHostPort raftAddr = Inr (h, p) \<longrightarrow>
            Address (NewRPCResolver True cfg) raftAddr
              = Inr (h @ '':'' @ formatInt (signedValue p + 1))) \<and>
         (plainPart h \<longrightarrow>
            Address (NewRPCResolver True cfg) (h @ '':'' @ p)
              = Inr (h @ '':'' @ formatInt (signedValue p + 1)))"
proof -
  from int have a: "Atoi p = Inr (word_of_int (signedValue p))"
    by (simp add: Atoi_Inr_iff)
  from int have lo: "- (2 ^ 63) \<le> signedValue p" by (simp add: isGoInt_def)
  have v: "sint (word_of_int (signedValue p) + 1 :: go_int) = signedValue p + 1"
    by (rule sint_succ [OF lo below])
  have gen: "Address (NewRPCResolver True cfg) s = Inr (h @ '':'' @ formatInt (signedValue p + 1))"
    if "SplitHostPort s = Inr (h, p)" for s
    using that a v by (simp add: Address_def NewRPCResolver_def)
  have "SplitHostPort (h @ '':'' @ p) = Inr (h, p)" if "plainPart h"
    using SplitHostPort_plain [OF that isGoInt_plainPart [OF int]] by simp
  with gen show ?thesis by blast
qed

theorem Address_offset_unchecked_witness:
  "isGoInt ''-2'' \<and> signedValue ''-2'' = - 2 \<and> plainPart ''h'' \<and>
   Address (NewRPCResolver True 8300) ''h:-2'' = Inr ''h:-1'' \<and>
   isGoInt ''65535'' \<and> signedValue ''65535'' = 65535 \<and>
   Address (NewRPCResolver True 8300) ''h:65535'' = Inr ''h:65536'' \<and>
   SplitHostPort ''[::1]:65535'' = Inr (''::1'', ''65535'') \<and>
   Address (NewRPCResolver True 8300) ''[::1]:65535'' = Inr ''::1:65536''"
proof -
  have i1: "isGoInt ''-2''" and i2: "isGoInt ''65535''" by code_simp+
  have v1: "signedValue ''-2'' = - 2" and v2: "signedValue ''65535'' = 65535" by code_simp+
  have b1: "signedValue ''-2'' < 2 ^ 63 - 1" and b2: "signedValue ''65535'' < 2 ^ 63 - 1"
    by (simp_all add: v1 v2)
  have h: "plainPart ''h''" by code_simp
  have f1: "formatInt (- 2 + 1) = ''-1''" and f2: "formatInt (65535 + 1) = ''65536''"
    by code_simp+
  from Address_offset_unchecked [OF i1 b1, of "[]" "''h''" 8300] h v1 f1
  have r1: "Address (NewRPCResolver True 8300) ''h:-2'' = Inr ''h:-1''" by simp
  from Address_offset_unchecked [OF i2 b2, of "[]" "''h''" 8300] h v2 f2
  have r2: "Address (NewRPCResolver True 8300) ''h:65535'' = Inr ''h:65536''" by simp
  have s6: "SplitHostPort ''[::1]:65535'' = Inr (''::1'', ''65535'')" by code_simp
  from Address_offset_unchecked [OF i2 b2, of "''[::1]:65535''" "''::1''" 8300] s6 v2 f2
  have r3: "Address (NewRPCResolver True 8300) ''[::1]:65535'' = Inr ''::1:65536''" by simp
  from i1 i2 v1 v2 h r1 r2 s6 r3 show ?thesis by simp
qed

text \<open>
  At the largest \<open>int\<close> the sum wraps around: the port \<open>9223372036854775807\<close> is a Go
  \<open>int\<close>, and the answer carries \<open>-9223372036854775808\<close>, not the successor.
\<close>

theorem Address_offset_wraps:
  "isGoInt ''9223372036854775807'' \<and>
   signedValue ''9223372036854775807'' = 9223372036854775807 \<and>
   Address (NewRPCResolver True 8300) ''h:9223372036854775807'' = Inr ''h:-9223372036854775808'' \<and>
   Address (NewRPCResolver True 8300) ''h:9223372036854775807''
     \<noteq> Inr (''h:'' @ formatInt (9223372036854775807 + 1))"
  by code_simp

section \<open>The client: auxiliary facts\<close>

lemma freshConn_append: "freshConn (tr @ es) = freshConn tr + freshConn es"
  by (simp add: freshConn_def)

lemma freshConn_simps:
  "freshConn [] = 0"
  "freshConn (Dialed t h # es) = Suc (freshConn es)"
  "freshConn (Resolved a # es) = freshConn es"
  "freshConn (DialFailed t # es) = freshConn es"
  "freshConn (Closed h # es) = freshConn es"
  "freshConn (Invoked m h # es) = freshConn es"
  by (simp_all add: freshConn_def)

lemma cacheOK_append: "cacheOK cl tr \<Longrightarrow> cacheOK cl (tr @ es)"
  by (auto simp: cacheOK_def freshConn_append split: option.splits sum.splits)

lemma getConn_hit:
  "leaderConn cl = Some h \<Longrightarrow> leaderAddr cl = a \<Longrightarrow> getConn ev a cl tr = (Inr h, cl, tr)"
  by (simp add: getConn_def)

lemma getConn_cacheOK:
  assumes "cacheOK cl tr" and "getConn ev a cl tr = (r, cl1, tr1)"
  shows "cacheOK cl1 tr1 \<and> rpc cl1 = rpc cl"
  using assms
  by (auto simp: getConn_def grpcDial_def connClose_def cacheOK_def freshConn_append
        freshConn_simps Let_def
      split: option.splits sum.splits if_splits)

lemma Notify_cacheOK:
  assumes "cacheOK cl tr" and "Notify ev a req cl tr = (r, cl1, tr1)"
  shows "cacheOK cl1 tr1 \<and> rpc cl1 = rpc cl"
  using assms
  by (auto simp: Notify_def grpcDial_def connClose_def cacheOK_def freshConn_append
        freshConn_simps
      split: option.splits sum.splits if_splits)

lemma Close_cacheOK:
  assumes "cacheOK cl tr" and "Close cl tr = (cl1, tr1)"
  shows "cacheOK cl1 tr1 \<and> rpc cl1 = rpc cl"
  using assms
  by (auto simp: Close_def connClose_def cacheOK_def freshConn_append freshConn_simps
      split: option.splits sum.splits)

lemma cached_op_cacheOK:
  assumes "cacheOK cl tr"
  shows "cacheOK (fst (snd (Join ev a req cl tr))) (snd (snd (Join ev a req cl tr)))
           \<and> rpc (fst (snd (Join ev a req cl tr))) = rpc cl"
    and "cacheOK (fst (snd (Remove ev a req cl tr))) (snd (snd (Remove ev a req cl tr)))
           \<and> rpc (fst (snd (Remove ev a req cl tr))) = rpc cl"
    and "cacheOK (fst (snd (Apply ev a req cl tr))) (snd (snd (Apply ev a req cl tr)))
           \<and> rpc (fst (snd (Apply ev a req cl tr))) = rpc cl"
    and "cacheOK (fst (snd (Query ev a req cl tr))) (snd (snd (Query ev a req cl tr)))
           \<and> rpc (fst (snd (Query ev a req cl tr))) = rpc cl"
proof -
  obtain r cl1 tr1 where g: "getConn ev a cl tr = (r, cl1, tr1)"
    by (cases "getConn ev a cl tr") auto
  from getConn_cacheOK [OF assms g] have ok: "cacheOK cl1 tr1" and same: "rpc cl1 = rpc cl"
    by simp_all
  from ok have ok': "\<And>es. cacheOK cl1 (tr1 @ es)" by (rule cacheOK_append)
  show "cacheOK (fst (snd (Join ev a req cl tr))) (snd (snd (Join ev a req cl tr)))
           \<and> rpc (fst (snd (Join ev a req cl tr))) = rpc cl"
    using g ok ok' same by (cases r) (simp_all add: Join_def)
  show "cacheOK (fst (snd (Remove ev a req cl tr))) (snd (snd (Remove ev a req cl tr)))
           \<and> rpc (fst (snd (Remove ev a req cl tr))) = rpc cl"
    using g ok ok' same by (cases r) (simp_all add: Remove_def)
  show "cacheOK (fst (snd (Apply ev a req cl tr))) (snd (snd (Apply ev a req cl tr)))
           \<and> rpc (fst (snd (Apply ev a req cl tr))) = rpc cl"
    using g ok ok' same by (cases r) (simp_all add: Apply_def)
  show "cacheOK (fst (snd (Query ev a req cl tr))) (snd (snd (Query ev a req cl tr)))
           \<and> rpc (fst (snd (Query ev a req cl tr))) = rpc cl"
    using g ok ok' same by (cases r) (simp_all add: Query_def)
qed

lemma exec_cacheOK:
  assumes "cacheOK (fst st) (snd st)"
  shows "cacheOK (fst (exec ev x st)) (snd (exec ev x st)) \<and> rpc (fst (exec ev x st)) = rpc (fst st)"
proof -
  obtain cl tr where st: "st = (cl, tr)" by (cases st)
  with assms have ok: "cacheOK cl tr" by simp
  show ?thesis
  proof (cases x)
    case (DoNotify a req)
    obtain r cl1 tr1 where n: "Notify ev a req cl tr = (r, cl1, tr1)"
      by (cases "Notify ev a req cl tr") auto
    from Notify_cacheOK [OF ok n] n show ?thesis by (simp add: st DoNotify)
  next
    case DoClose
    obtain cl1 tr1 where c: "Close cl tr = (cl1, tr1)" by (cases "Close cl tr")
    from Close_cacheOK [OF ok c] c show ?thesis by (simp add: st DoClose)
  qed (simp_all add: st cached_op_cacheOK [OF ok])
qed

lemma run_cacheOK:
  "cacheOK (fst st) (snd st) \<Longrightarrow>
     cacheOK (fst (run ev xs st)) (snd (run ev xs st)) \<and> rpc (fst (run ev xs st)) = rpc (fst st)"
proof (induction xs arbitrary: st)
  case Nil
  then show ?case by simp
next
  case (Cons x xs)
  from exec_cacheOK [OF Cons.prems, of ev x]
  have e: "cacheOK (fst (exec ev x st)) (snd (exec ev x st))" "rpc (fst (exec ev x st)) = rpc (fst st)"
    by simp_all
  from Cons.IH [OF e(1)] e(2) show ?case by simp
qed

lemma NewClient_cacheOK: "cacheOK (NewClient r) []"
  by (simp add: cacheOK_def NewClient_def)

lemma getConn_Inr:
  assumes "getConn ev a cl tr = (Inr h, cl1, tr1)"
  shows "leaderConn cl1 = Some h \<and> leaderAddr cl1 = a \<and> rpc cl1 = rpc cl"
  using assms
  by (auto simp: getConn_def grpcDial_def Let_def split: option.splits sum.splits if_splits)

lemma getConn_Inr_fresh:
  assumes "cacheOK cl tr" and "getConn ev a cl tr = (Inr h, cl1, tr1)"
  shows "h < freshConn tr1"
  using getConn_cacheOK [OF assms] getConn_Inr [OF assms(2)]
  by (simp add: cacheOK_def)

lemma getConn_other_addr:
  assumes "leaderConn cl = Some h" and "b \<noteq> leaderAddr cl"
  shows "getConn ev b cl tr =
     (case rpc cl b of
        Inl err \<Rightarrow> (Inl (Wrapped ''resolve address: '' err), cl, tr @ [Closed h, Resolved b])
      | Inr addr \<Rightarrow>
          (case dialError ev (tr @ [Closed h, Resolved b]) True addr of
             Some err \<Rightarrow>
               (Inl (Wrapped ''dial: '' err), cl\<lparr>leaderConn := None\<rparr>,
                tr @ [Closed h, Resolved b, DialFailed addr])
           | None \<Rightarrow>
               (Inr (freshConn tr), cl\<lparr>leaderConn := Some (freshConn tr), leaderAddr := b\<rparr>,
                tr @ [Closed h, Resolved b, Dialed addr (freshConn tr)])))"
  using assms
  by (simp add: getConn_def grpcDial_def connClose_def freshConn_append freshConn_simps
      split: sum.splits option.splits)

lemma getConn_Inl:
  assumes "getConn ev a cl tr = (Inl e, cl1, tr1)"
  shows "(\<exists>e0. rpc cl a = Inl e0 \<and> e = Wrapped ''resolve address: '' e0) \<or>
         (\<exists>t e1 tr0. rpc cl a = Inr t \<and> dialError ev tr0 True t = Some e1 \<and>
            e = Wrapped ''dial: '' e1)"
proof (cases "rpc cl a")
  case (Inl e0)
  with assms show ?thesis
    by (auto simp: getConn_def Let_def split: option.splits if_splits)
next
  case (Inr t)
  let ?tr0 = "(case leaderConn cl of None \<Rightarrow> tr | Some h \<Rightarrow> connClose h tr) @ [Resolved a]"
  show ?thesis
  proof (cases "dialError ev ?tr0 True t")
    case None
    with assms Inr show ?thesis
      by (auto simp: getConn_def grpcDial_def Let_def split: option.splits if_splits)
  next
    case (Some e1)
    with assms Inr have "e = Wrapped ''dial: '' e1"
      by (auto simp: getConn_def grpcDial_def Let_def split: option.splits if_splits)
    with Inr Some show ?thesis by blast
  qed
qed

section \<open>The client: results\<close>

text \<open>
  C1, as the program has it. \<open>Close\<close> closes the cached handle when there is one and
  writes no field: on an empty cache it does nothing, and on a bound cache the address and
  the handle, now closed, stay where they are. The next \<open>getConn\<close> with the cached address
  answers that closed handle, with no resolution and no dial; with another address it
  closes the handle once more, resolves, and dials a new connection.
\<close>

theorem Close_keeps_cache:
  "(leaderConn cl = None \<longrightarrow> Close cl tr = (cl, tr)) \<and>
   (leaderConn cl = Some h \<longrightarrow>
      Close cl tr = (cl, tr @ [Closed h]) \<and>
      getConn ev (leaderAddr cl) cl (tr @ [Closed h]) = (Inr h, cl, tr @ [Closed h]) \<and>
      (a \<noteq> leaderAddr cl \<and> rpc cl a = Inr t \<and>
       dialError ev (tr @ [Closed h, Closed h, Resolved a]) True t = None \<longrightarrow>
         getConn ev a cl (tr @ [Closed h]) =
           (Inr (freshConn tr),
            cl\<lparr>leaderConn := Some (freshConn tr), leaderAddr := a\<rparr>,
            tr @ [Closed h, Closed h, Resolved a, Dialed t (freshConn tr)])))"
proof -
  have idle: "Close cl tr = (cl, tr)" if "leaderConn cl = None"
    using that by (simp add: Close_def)
  have closes: "Close cl tr = (cl, tr @ [Closed h])" if "leaderConn cl = Some h"
    using that by (simp add: Close_def connClose_def)
  have same: "getConn ev (leaderAddr cl) cl (tr @ [Closed h]) = (Inr h, cl, tr @ [Closed h])"
    if "leaderConn cl = Some h"
    using that by (simp add: getConn_hit)
  have other: "getConn ev a cl (tr @ [Closed h]) =
      (Inr (freshConn tr),
       cl\<lparr>leaderConn := Some (freshConn tr), leaderAddr := a\<rparr>,
       tr @ [Closed h, Closed h, Resolved a, Dialed t (freshConn tr)])"
    if "leaderConn cl = Some h" "a \<noteq> leaderAddr cl" "rpc cl a = Inr t"
      "dialError ev (tr @ [Closed h, Closed h, Resolved a]) True t = None"
    using getConn_other_addr [OF that(1,2), of ev "tr @ [Closed h]"] that(3,4)
    by (simp add: freshConn_append freshConn_simps)
  from idle closes same other show ?thesis by blast
qed

theorem Close_keeps_cache_witness:
  "leaderConn (NewClient fixedResolver) = None \<and>
   Close (NewClient fixedResolver) [] = (NewClient fixedResolver, []) \<and>
   leaderConn (fst boundState) = Some 0 \<and>
   Close (fst boundState) (snd boundState) = (fst boundState, snd boundState @ [Closed 0]) \<and>
   fst (getConn calmEnv ''10.0.0.5:7000'' (fst boundState) (snd boundState @ [Closed 0])) = Inr 0 \<and>
   fst (getConn calmEnv ''10.0.0.7:7000'' (fst boundState) (snd boundState @ [Closed 0])) = Inr 1 \<and>
   snd (snd (getConn calmEnv ''10.0.0.7:7000'' (fst boundState) (snd boundState @ [Closed 0])))
     = snd boundState @ [Closed 0, Closed 0, Resolved ''10.0.0.7:7000'', Dialed ''10.0.0.7:8300'' 1]"
proof -
  have lc: "leaderConn (fst boundState) = Some 0" by code_simp
  have la: "leaderAddr (fst boundState) = ''10.0.0.5:7000''" by code_simp
  have r: "rpc (fst boundState) ''10.0.0.7:7000'' = Inr ''10.0.0.7:8300''" by code_simp
  have fr: "freshConn (snd boundState) = 1" by code_simp
  have d: "dialError calmEnv (snd boundState @ [Closed 0, Closed 0, Resolved ''10.0.0.7:7000''])
             True ''10.0.0.7:8300'' = None"
    by (simp add: calmEnv_def)
  have ne: "''10.0.0.7:7000'' \<noteq> leaderAddr (fst boundState)" by (simp add: la)
  have em: "leaderConn (NewClient fixedResolver) = None" by (simp add: NewClient_def)
  from Close_keeps_cache [where cl = "NewClient fixedResolver" and tr = "[]" and h = 0
      and ev = calmEnv and a = "[]" and t = "[]"] em
  have c0: "Close (NewClient fixedResolver) [] = (NewClient fixedResolver, [])" by simp
  from Close_keeps_cache [where cl = "fst boundState" and tr = "snd boundState" and h = 0
      and ev = calmEnv and a = "''10.0.0.7:7000''" and t = "''10.0.0.7:8300''"]
    lc la r fr d ne
  have "Close (fst boundState) (snd boundState) = (fst boundState, snd boundState @ [Closed 0]) \<and>
   fst (getConn calmEnv ''10.0.0.5:7000'' (fst boundState) (snd boundState @ [Closed 0])) = Inr 0 \<and>
   fst (getConn calmEnv ''10.0.0.7:7000'' (fst boundState) (snd boundState @ [Closed 0])) = Inr 1 \<and>
   snd (snd (getConn calmEnv ''10.0.0.7:7000'' (fst boundState) (snd boundState @ [Closed 0])))
     = snd boundState @ [Closed 0, Closed 0, Resolved ''10.0.0.7:7000'', Dialed ''10.0.0.7:8300'' 1]"
    by simp
  with em c0 lc show ?thesis by blast
qed

text \<open>
  After \<open>Apply\<close> and \<open>Close\<close> the cache is not empty: it holds the address and the
  handle 0, which the trace shows closed, and \<open>getConn\<close> with that address answers 0 and
  adds nothing to the trace.
\<close>

theorem Close_keeps_cache_counterexample:
  "\<not> cacheEmpty (fst afterClose) \<and>
   leaderConn (fst afterClose) = Some 0 \<and>
   leaderAddr (fst afterClose) = ''10.0.0.5:7000'' \<and>
   snd afterClose =
     [Resolved ''10.0.0.5:7000'', Dialed ''10.0.0.5:8300'' 0, Invoked MApply 0, Closed 0] \<and>
   fst (getConn calmEnv ''10.0.0.5:7000'' (fst afterClose) (snd afterClose)) = Inr 0 \<and>
   snd (snd (getConn calmEnv ''10.0.0.5:7000'' (fst afterClose) (snd afterClose))) = snd afterClose"
  by code_simp

text \<open>
  C2, as the program has it. After every sequence of operations on a new client (Join,
  Notify, Remove, Apply, Query and Close, in any order, whatever fails on the way) the
  cache is coherent: a connection that is present was dialed for the address the resolver
  gives for \<open>leaderAddr\<close>. With a resolver that refuses the empty address, as the
  program's does, a present connection also means a present address. The converse is not
  kept: after a dial that failed the address stays and the connection is gone.
\<close>

theorem cache_coherent:
  "cacheOK (fst (run ev ops (NewClient r, []))) (snd (run ev ops (NewClient r, []))) \<and>
   (isl (r []) \<and> leaderConn (fst (run ev ops (NewClient r, []))) \<noteq> None \<longrightarrow>
      leaderAddr (fst (run ev ops (NewClient r, []))) \<noteq> [])"
proof -
  let ?cl = "fst (run ev ops (NewClient r, []))"
  let ?tr = "snd (run ev ops (NewClient r, []))"
  from run_cacheOK [of "(NewClient r, [])" ev ops] NewClient_cacheOK [of r]
  have ok: "cacheOK ?cl ?tr" and same: "rpc ?cl = r"
    by (simp_all add: NewClient_def)
  have "leaderAddr ?cl \<noteq> []" if "isl (r [])" "leaderConn ?cl \<noteq> None"
    using ok same that by (auto simp: cacheOK_def split: option.splits sum.splits)
  with ok show ?thesis by blast
qed

theorem cache_coherent_witness:
  "isl (fixedResolver []) \<and>
   leaderConn (fst afterClose) \<noteq> None \<and>
   cacheOK (fst afterClose) (snd afterClose) \<and>
   leaderAddr (fst afterClose) \<noteq> []"
proof -
  have e: "isl (fixedResolver [])" by code_simp
  have c: "leaderConn (fst afterClose) \<noteq> None" by code_simp
  from cache_coherent [of calmEnv "[DoApply ''10.0.0.5:7000'' (), DoClose]" fixedResolver] e c
  show ?thesis unfolding afterClose_def by blast
qed

text \<open>
  The invariant as the specification words it fails after a dial that failed: \<open>Apply\<close> to
  a peer that answers, then \<open>Apply\<close> to one that cannot be dialed, leaves the first address
  and no connection.
\<close>

theorem cache_invariant_counterexample:
  "\<not> cacheInvSpec (fst afterFailedDial) (snd afterFailedDial) \<and>
   leaderConn (fst afterFailedDial) = None \<and>
   leaderAddr (fst afterFailedDial) = ''10.0.0.5:7000'' \<and>
   snd afterFailedDial =
     [Resolved ''10.0.0.5:7000'', Dialed ''10.0.0.5:8300'' 0, Invoked MApply 0,
      Closed 0, Resolved ''10.0.0.6:7000'', DialFailed ''10.0.0.6:8300'']"
  by code_simp

text \<open>
  C3. From a coherent cache, when \<open>getConn a\<close> has answered the handle \<open>h\<close>, a call
  \<open>getConn b\<close> with another address closes \<open>h\<close> exactly once, whatever happens next.
  When that call answers a handle \<open>h'\<close>, it has resolved \<open>b\<close> and dialed exactly one new
  connection, \<open>h'\<close>, which is not \<open>h\<close>, and the cache is bound to \<open>b\<close> and holds \<open>h'\<close>.
\<close>

theorem getConn_switch:
  assumes ok: "cacheOK cl tr"
    and first: "getConn ev a cl tr = (Inr h, cl1, tr1)"
    and diff: "b \<noteq> a"
  shows "count_list (drop (length tr1) (snd (snd (getConn ev b cl1 tr1)))) (Closed h) = 1 \<and>
         (\<forall>h' cl2 tr2. getConn ev b cl1 tr1 = (Inr h', cl2, tr2) \<longrightarrow>
            (\<exists>t. rpc cl b = Inr t \<and>
               tr2 = tr1 @ [Closed h, Resolved b, Dialed t h'] \<and>
               h' = freshConn tr1 \<and> h' \<noteq> h \<and>
               leaderAddr cl2 = b \<and> leaderConn cl2 = Some h' \<and>
               length (filter isDialed (drop (length tr1) tr2)) = 1))"
proof -
  from getConn_Inr [OF first]
  have c1: "leaderConn cl1 = Some h" "leaderAddr cl1 = a" "rpc cl1 = rpc cl" by simp_all
  from getConn_Inr_fresh [OF ok first] have fr: "h < freshConn tr1" .
  from diff c1 have d: "b \<noteq> leaderAddr cl1" by simp
  note miss = getConn_other_addr [OF c1(1) d, of ev tr1]
  have once: "count_list (drop (length tr1) (snd (snd (getConn ev b cl1 tr1)))) (Closed h) = 1"
    unfolding miss by (simp split: sum.splits option.splits)
  have switch: "\<exists>t. rpc cl b = Inr t \<and>
               tr2 = tr1 @ [Closed h, Resolved b, Dialed t h'] \<and>
               h' = freshConn tr1 \<and> h' \<noteq> h \<and>
               leaderAddr cl2 = b \<and> leaderConn cl2 = Some h' \<and>
               length (filter isDialed (drop (length tr1) tr2)) = 1"
    if second: "getConn ev b cl1 tr1 = (Inr h', cl2, tr2)" for h' cl2 tr2
  proof -
    from getConn_Inr [OF second] have c2: "leaderAddr cl2 = b" "leaderConn cl2 = Some h'"
      by simp_all
    show ?thesis
    proof (cases "rpc cl b")
      case (Inl err)
      with miss second c1(3) show ?thesis by simp
    next
      case (Inr t)
      show ?thesis
      proof (cases "dialError ev (tr1 @ [Closed h, Resolved b]) True t")
        case (Some err)
        with miss second c1(3) Inr show ?thesis by simp
      next
        case None
        with miss second c1(3) Inr
        have h': "h' = freshConn tr1" and tr2: "tr2 = tr1 @ [Closed h, Resolved b, Dialed t h']"
          by simp_all
        from fr h' have ne: "h' \<noteq> h" by simp
        from Inr tr2 h' ne c2 show ?thesis by simp
      qed
    qed
  qed
  from once switch show ?thesis by blast
qed

theorem getConn_switch_witness:
  "cacheOK (NewClient fixedResolver) [] \<and>
   fst firstCall = Inr 0 \<and>
   ''10.0.0.7:7000'' \<noteq> ''10.0.0.5:7000'' \<and>
   fst secondCall = Inr 1 \<and>
   snd (snd secondCall) = snd (snd firstCall) @
      [Closed 0, Resolved ''10.0.0.7:7000'', Dialed ''10.0.0.7:8300'' 1] \<and>
   leaderAddr (fst (snd secondCall)) = ''10.0.0.7:7000'' \<and>
   leaderConn (fst (snd secondCall)) = Some 1 \<and>
   count_list (drop (length (snd (snd firstCall))) (snd (snd secondCall))) (Closed 0) = 1 \<and>
   length (filter isDialed (drop (length (snd (snd firstCall))) (snd (snd secondCall)))) = 1"
proof -
  have ok: "cacheOK (NewClient fixedResolver) []" by (rule NewClient_cacheOK)
  have r1: "fst firstCall = Inr 0" by code_simp
  have r2: "fst secondCall = Inr 1" by code_simp
  have first: "getConn calmEnv ''10.0.0.5:7000'' (NewClient fixedResolver) []
      = (Inr 0, fst (snd firstCall), snd (snd firstCall))"
    using r1 unfolding firstCall_def by (metis prod.collapse)
  have second: "getConn calmEnv ''10.0.0.7:7000'' (fst (snd firstCall)) (snd (snd firstCall))
      = (Inr 1, fst (snd secondCall), snd (snd secondCall))"
    using r2 unfolding secondCall_def by (metis prod.collapse)
  have diff: "''10.0.0.7:7000'' \<noteq> ''10.0.0.5:7000''" by simp
  have rb: "rpc (NewClient fixedResolver) ''10.0.0.7:7000'' = Inr ''10.0.0.7:8300''"
    by code_simp
  note sw = getConn_switch [OF ok first diff]
  from sw have once:
    "count_list (drop (length (snd (snd firstCall))) (snd (snd secondCall))) (Closed 0) = 1"
    by (simp add: secondCall_def)
  from sw [THEN conjunct2, rule_format, OF second] rb
  have rest: "snd (snd secondCall) = snd (snd firstCall) @
      [Closed 0, Resolved ''10.0.0.7:7000'', Dialed ''10.0.0.7:8300'' 1] \<and>
   leaderAddr (fst (snd secondCall)) = ''10.0.0.7:7000'' \<and>
   leaderConn (fst (snd secondCall)) = Some 1 \<and>
   length (filter isDialed (drop (length (snd (snd firstCall))) (snd (snd secondCall)))) = 1"
    by auto
  from ok r1 r2 diff once rest show ?thesis by blast
qed

text \<open>
  C4. Once \<open>getConn a\<close> has answered the handle \<open>h\<close>, asking for \<open>a\<close> again any number
  of times answers \<open>h\<close> every time and leaves client and trace as they are: nothing is
  resolved, dialed or closed. The first call dialed exactly once, unless the cache already
  held \<open>a\<close>, in which case it did not dial at all.
\<close>

theorem getConn_repeat:
  assumes first: "getConn ev a cl tr = (Inr h, cl1, tr1)"
  shows "getConnN ev n a cl1 tr1 = (replicate n (Inr h), cl1, tr1) \<and>
         freshConn tr1 =
           (if leaderConn cl \<noteq> None \<and> leaderAddr cl = a then freshConn tr else freshConn tr + 1)"
proof -
  from getConn_Inr [OF first] have c1: "leaderConn cl1 = Some h" "leaderAddr cl1 = a"
    by simp_all
  have rep: "getConnN ev n a cl1 tr1 = (replicate n (Inr h), cl1, tr1)"
    by (induction n) (simp_all add: getConn_hit [OF c1])
  have cnt: "freshConn tr1 =
      (if leaderConn cl \<noteq> None \<and> leaderAddr cl = a then freshConn tr else freshConn tr + 1)"
    using first
    by (auto simp: getConn_def grpcDial_def connClose_def freshConn_append freshConn_simps
        Let_def split: option.splits sum.splits if_splits)
  from rep cnt show ?thesis by simp
qed

theorem getConn_repeat_witness:
  "fst firstCall = Inr 0 \<and>
   getConnN calmEnv 3 ''10.0.0.5:7000'' (fst (snd firstCall)) (snd (snd firstCall))
     = ([Inr 0, Inr 0, Inr 0], fst (snd firstCall), snd (snd firstCall)) \<and>
   snd (snd firstCall) = [Resolved ''10.0.0.5:7000'', Dialed ''10.0.0.5:8300'' 0] \<and>
   freshConn (snd (snd firstCall)) = 1"
proof -
  have r1: "fst firstCall = Inr 0" by code_simp
  have t1: "snd (snd firstCall) = [Resolved ''10.0.0.5:7000'', Dialed ''10.0.0.5:8300'' 0]"
    by code_simp
  have first: "getConn calmEnv ''10.0.0.5:7000'' (NewClient fixedResolver) []
      = (Inr 0, fst (snd firstCall), snd (snd firstCall))"
    using r1 unfolding firstCall_def by (metis prod.collapse)
  have three: "replicate 3 (Inr 0 :: error + conn) = [Inr 0, Inr 0, Inr 0]"
    by (simp add: numeral_3_eq_3)
  from getConn_repeat [OF first, of 3] r1 t1 three
  show ?thesis by (simp add: NewClient_def freshConn_simps)
qed

text \<open>
  C5. \<open>Join\<close>, \<open>Remove\<close>, \<open>Apply\<close> and \<open>Query\<close> return the error of \<open>getConn\<close> as it
  is, and that error wraps the resolver's error under \<open>resolve address: \<close> or the
  transport's error under \<open>dial: \<close>; when \<open>getConn\<close> answers a handle they return what the
  remote call returns. \<open>Notify\<close> wraps its own resolver and dial errors in the same way and
  otherwise returns what \<open>NotifyPeer\<close> returns. The text of a wrapped error is the prefix
  followed by the text of the error inside.
\<close>

theorem operations_errors:
  "(getConn ev a cl tr = (Inl e, cl1, tr1) \<longrightarrow>
      fst (Join ev a req cl tr) = Inl e \<and> fst (Remove ev a req cl tr) = Inl e \<and>
      fst (Apply ev a req cl tr) = Inl e \<and> fst (Query ev a req cl tr) = Inl e \<and>
      ((\<exists>e0. rpc cl a = Inl e0 \<and> e = Wrapped ''resolve address: '' e0) \<or>
       (\<exists>t e1 tr0. rpc cl a = Inr t \<and> dialError ev tr0 True t = Some e1 \<and>
          e = Wrapped ''dial: '' e1))) \<and>
   (getConn ev a cl tr = (Inr h, cl1, tr1) \<longrightarrow>
      fst (Join ev a req cl tr) = invoke ev tr1 MJoinPeer h req \<and>
      fst (Remove ev a req cl tr) = invoke ev tr1 MRemovePeer h req \<and>
      fst (Apply ev a req cl tr) = invoke ev tr1 MApply h req \<and>
      fst (Query ev a req cl tr) = invoke ev tr1 MQuery h req) \<and>
   (rpc cl a = Inl e0 \<longrightarrow>
      fst (Notify ev a req cl tr) = Inl (Wrapped ''resolve address: '' e0)) \<and>
   (rpc cl a = Inr t \<and> dialError ev (tr @ [Resolved a]) False t = Some e1 \<longrightarrow>
      fst (Notify ev a req cl tr) = Inl (Wrapped ''dial: '' e1)) \<and>
   (rpc cl a = Inr t \<and> dialError ev (tr @ [Resolved a]) False t = None \<longrightarrow>
      fst (Notify ev a req cl tr)
        = invoke ev (tr @ [Resolved a, Dialed t (freshConn tr)]) MNotifyPeer (freshConn tr) req) \<and>
   Error leaf (Wrapped ''resolve address: '' e0) = ''resolve address: '' @ Error leaf e0 \<and>
   Error leaf (Wrapped ''dial: '' e1) = ''dial: '' @ Error leaf e1 \<and>
   Unwrap (Wrapped ''resolve address: '' e0) = Some e0 \<and>
   Unwrap (Wrapped ''dial: '' e1) = Some e1"
proof -
  have cachedL: "fst (Join ev a req cl tr) = Inl e \<and> fst (Remove ev a req cl tr) = Inl e \<and>
      fst (Apply ev a req cl tr) = Inl e \<and> fst (Query ev a req cl tr) = Inl e"
    if "getConn ev a cl tr = (Inl e, cl1, tr1)"
    using that by (simp add: Join_def Remove_def Apply_def Query_def)
  have cachedR: "fst (Join ev a req cl tr) = invoke ev tr1 MJoinPeer h req \<and>
      fst (Remove ev a req cl tr) = invoke ev tr1 MRemovePeer h req \<and>
      fst (Apply ev a req cl tr) = invoke ev tr1 MApply h req \<and>
      fst (Query ev a req cl tr) = invoke ev tr1 MQuery h req"
    if "getConn ev a cl tr = (Inr h, cl1, tr1)"
    using that by (simp add: Join_def Remove_def Apply_def Query_def)
  have n1: "fst (Notify ev a req cl tr) = Inl (Wrapped ''resolve address: '' e0)"
    if "rpc cl a = Inl e0"
    using that by (simp add: Notify_def)
  have n2: "fst (Notify ev a req cl tr) = Inl (Wrapped ''dial: '' e1)"
    if "rpc cl a = Inr t" "dialError ev (tr @ [Resolved a]) False t = Some e1"
    using that by (simp add: Notify_def grpcDial_def)
  have n3: "fst (Notify ev a req cl tr)
        = invoke ev (tr @ [Resolved a, Dialed t (freshConn tr)]) MNotifyPeer (freshConn tr) req"
    if "rpc cl a = Inr t" "dialError ev (tr @ [Resolved a]) False t = None"
    using that by (simp add: Notify_def grpcDial_def freshConn_append freshConn_simps)
  have msg: "Error leaf (Wrapped ''resolve address: '' e0) = ''resolve address: '' @ Error leaf e0"
    "Error leaf (Wrapped ''dial: '' e1) = ''dial: '' @ Error leaf e1"
    "Unwrap (Wrapped ''resolve address: '' e0) = Some e0"
    "Unwrap (Wrapped ''dial: '' e1) = Some e1"
    by simp_all
  from cachedL cachedR n1 n2 n3 msg getConn_Inl [of ev a cl tr e cl1 tr1]
  show ?thesis by blast
qed

theorem operations_errors_witness:
  "fst (Join downEnv ''not-an-address'' () (NewClient fixedResolver) [])
     = Inl (Wrapped ''resolve address: ''
             (AddrError ''missing port in address'' ''not-an-address'')) \<and>
   fst (Query downEnv ''10.0.0.6:7000'' () (NewClient fixedResolver) [])
     = Inl (Wrapped ''dial: '' (TransportError ''unreachable'')) \<and>
   fst (Apply downEnv ''10.0.0.5:7000'' () (NewClient fixedResolver) [])
     = Inl (TransportError ''rejected'') \<and>
   fst (Remove calmEnv ''10.0.0.5:7000'' () (NewClient fixedResolver) []) = Inr () \<and>
   fst (Notify downEnv ''not-an-address'' () (NewClient fixedResolver) [])
     = Inl (Wrapped ''resolve address: ''
             (AddrError ''missing port in address'' ''not-an-address'')) \<and>
   fst (Notify downEnv ''10.0.0.6:7000'' () (NewClient fixedResolver) [])
     = Inl (Wrapped ''dial: '' (TransportError ''unreachable'')) \<and>
   fst (Notify downEnv ''10.0.0.5:7000'' () (NewClient fixedResolver) [])
     = Inl (TransportError ''rejected'')"
proof -
  let ?cl = "NewClient fixedResolver"
  let ?bad = "AddrError ''missing port in address'' ''not-an-address''"
  have "fst (getConn downEnv ''not-an-address'' ?cl [])
      = Inl (Wrapped ''resolve address: '' ?bad)" by code_simp
  then have g1: "getConn downEnv ''not-an-address'' ?cl []
      = (Inl (Wrapped ''resolve address: '' ?bad),
         fst (snd (getConn downEnv ''not-an-address'' ?cl [])),
         snd (snd (getConn downEnv ''not-an-address'' ?cl [])))"
    by (metis prod.collapse)
  have "fst (getConn downEnv ''10.0.0.6:7000'' ?cl [])
      = Inl (Wrapped ''dial: '' (TransportError ''unreachable''))" by code_simp
  then have g2: "getConn downEnv ''10.0.0.6:7000'' ?cl []
      = (Inl (Wrapped ''dial: '' (TransportError ''unreachable'')),
         fst (snd (getConn downEnv ''10.0.0.6:7000'' ?cl [])),
         snd (snd (getConn downEnv ''10.0.0.6:7000'' ?cl [])))"
    by (metis prod.collapse)
  have "fst (getConn downEnv ''10.0.0.5:7000'' ?cl []) = Inr 0" by code_simp
  then have g3: "getConn downEnv ''10.0.0.5:7000'' ?cl []
      = (Inr 0, fst (snd (getConn downEnv ''10.0.0.5:7000'' ?cl [])),
         snd (snd (getConn downEnv ''10.0.0.5:7000'' ?cl [])))"
    by (metis prod.collapse)
  have "fst (getConn calmEnv ''10.0.0.5:7000'' ?cl []) = Inr 0" by code_simp
  then have g4: "getConn calmEnv ''10.0.0.5:7000'' ?cl []
      = (Inr 0, fst (snd (getConn calmEnv ''10.0.0.5:7000'' ?cl [])),
         snd (snd (getConn calmEnv ''10.0.0.5:7000'' ?cl [])))"
    by (metis prod.collapse)
  have r1: "rpc ?cl ''not-an-address'' = Inl ?bad" by code_simp
  have r2: "rpc ?cl ''10.0.0.6:7000'' = Inr ''10.0.0.6:8300'' \<and>
      dialError downEnv ([] @ [Resolved ''10.0.0.6:7000'']) False ''10.0.0.6:8300''
        = Some (TransportError ''unreachable'')" by code_simp
  have r3: "rpc ?cl ''10.0.0.5:7000'' = Inr ''10.0.0.5:8300'' \<and>
      dialError downEnv ([] @ [Resolved ''10.0.0.5:7000'']) False ''10.0.0.5:8300'' = None"
    by code_simp
  have i1: "invoke downEnv tr m h () = Inl (TransportError ''rejected'')" for tr m h
    by (simp add: downEnv_def)
  have i2: "invoke calmEnv tr m h () = Inr ()" for tr m h
    by (simp add: calmEnv_def)
  note a1 = operations_errors [THEN conjunct1, rule_format, OF g1, of "()"]
  note a2 = operations_errors [THEN conjunct1, rule_format, OF g2, of "()"]
  note a3 = operations_errors [THEN conjunct2, THEN conjunct1, rule_format, OF g3, of "()"]
  note a4 = operations_errors [THEN conjunct2, THEN conjunct1, rule_format, OF g4, of "()"]
  note b1 = operations_errors [THEN conjunct2, THEN conjunct2, THEN conjunct1, rule_format,
      OF r1, of downEnv "()" "[]"]
  note b2 = operations_errors [THEN conjunct2, THEN conjunct2, THEN conjunct2, THEN conjunct1,
      rule_format, OF r2, of "()"]
  note b3 = operations_errors [THEN conjunct2, THEN conjunct2, THEN conjunct2, THEN conjunct2,
      THEN conjunct1, rule_format, OF r3, of "()"]
  from a1 a2 a3 a4 b1 b2 b3 show ?thesis by (simp add: i1 i2)
qed

text \<open>
  C8. \<open>Notify\<close> never changes the client. When its dial succeeds, the trace grows by the
  resolution, the dial of a new handle, the remote call on that handle and the \<open>Close\<close> of
  that handle, in this order, whatever the remote call returns; the new handle is not the
  cached one. When resolution or dial fails no handle exists and none is closed.
\<close>

theorem Notify_private:
  "fst (snd (Notify ev a req cl tr)) = cl \<and>
   (rpc cl a = Inl e0 \<longrightarrow> snd (snd (Notify ev a req cl tr)) = tr @ [Resolved a]) \<and>
   (rpc cl a = Inr t \<and> dialError ev (tr @ [Resolved a]) False t = Some e1 \<longrightarrow>
      snd (snd (Notify ev a req cl tr)) = tr @ [Resolved a, DialFailed t]) \<and>
   (rpc cl a = Inr t \<and> dialError ev (tr @ [Resolved a]) False t = None \<longrightarrow>
      Notify ev a req cl tr =
        (invoke ev (tr @ [Resolved a, Dialed t (freshConn tr)]) MNotifyPeer (freshConn tr) req,
         cl,
         tr @ [Resolved a, Dialed t (freshConn tr), Invoked MNotifyPeer (freshConn tr),
               Closed (freshConn tr)])) \<and>
   (cacheOK cl tr \<longrightarrow> leaderConn cl \<noteq> Some (freshConn tr))"
proof -
  have frame: "fst (snd (Notify ev a req cl tr)) = cl"
    by (simp add: Notify_def grpcDial_def split: sum.splits option.splits)
  have n1: "snd (snd (Notify ev a req cl tr)) = tr @ [Resolved a]" if "rpc cl a = Inl e0"
    using that by (simp add: Notify_def)
  have n2: "snd (snd (Notify ev a req cl tr)) = tr @ [Resolved a, DialFailed t]"
    if "rpc cl a = Inr t" "dialError ev (tr @ [Resolved a]) False t = Some e1"
    using that by (simp add: Notify_def grpcDial_def)
  have n3: "Notify ev a req cl tr =
        (invoke ev (tr @ [Resolved a, Dialed t (freshConn tr)]) MNotifyPeer (freshConn tr) req,
         cl,
         tr @ [Resolved a, Dialed t (freshConn tr), Invoked MNotifyPeer (freshConn tr),
               Closed (freshConn tr)])"
    if "rpc cl a = Inr t" "dialError ev (tr @ [Resolved a]) False t = None"
    using that
    by (simp add: Notify_def grpcDial_def connClose_def freshConn_append freshConn_simps)
  have other: "leaderConn cl \<noteq> Some (freshConn tr)" if "cacheOK cl tr"
    using that by (auto simp: cacheOK_def)
  from frame n1 n2 n3 other show ?thesis by blast
qed

theorem Notify_private_witness:
  "leaderConn (fst boundState) = Some 0 \<and>
   cacheOK (fst boundState) (snd boundState) \<and>
   leaderConn (fst boundState) \<noteq> Some (freshConn (snd boundState)) \<and>
   Notify calmEnv ''10.0.0.9:7000'' () (fst boundState) (snd boundState) =
     (Inr (), fst boundState,
      snd boundState @ [Resolved ''10.0.0.9:7000'', Dialed ''10.0.0.9:8300'' 1,
                        Invoked MNotifyPeer 1, Closed 1]) \<and>
   Notify downEnv ''10.0.0.9:7000'' () (fst boundState) (snd boundState) =
     (Inl (TransportError ''rejected''), fst boundState,
      snd boundState @ [Resolved ''10.0.0.9:7000'', Dialed ''10.0.0.9:8300'' 1,
                        Invoked MNotifyPeer 1, Closed 1]) \<and>
   snd (snd (Notify downEnv ''not-an-address'' () (fst boundState) (snd boundState)))
     = snd boundState @ [Resolved ''not-an-address''] \<and>
   snd (snd (Notify downEnv ''10.0.0.6:7000'' () (fst boundState) (snd boundState)))
     = snd boundState @ [Resolved ''10.0.0.6:7000'', DialFailed ''10.0.0.6:8300'']"
proof -
  let ?cl = "fst boundState"
  let ?tr = "snd boundState"
  have lc: "leaderConn ?cl = Some 0" by code_simp
  have ok: "cacheOK ?cl ?tr" by code_simp
  have fr: "freshConn ?tr = 1" by code_simp
  have r0: "rpc ?cl ''not-an-address''
      = Inl (AddrError ''missing port in address'' ''not-an-address'')" by code_simp
  have r9: "rpc ?cl ''10.0.0.9:7000'' = Inr ''10.0.0.9:8300''" by code_simp
  have r6: "rpc ?cl ''10.0.0.6:7000'' = Inr ''10.0.0.6:8300''" by code_simp
  have d1: "dialError calmEnv (?tr @ [Resolved ''10.0.0.9:7000'']) False ''10.0.0.9:8300'' = None"
    by (simp add: calmEnv_def)
  have d2: "dialError downEnv (?tr @ [Resolved ''10.0.0.9:7000'']) False ''10.0.0.9:8300'' = None"
    by (simp add: downEnv_def)
  have d3: "dialError downEnv (?tr @ [Resolved ''10.0.0.6:7000'']) False ''10.0.0.6:8300''
      = Some (TransportError ''unreachable'')"
    by (simp add: downEnv_def)
  have i1: "invoke downEnv tr m h () = Inl (TransportError ''rejected'')" for tr m h
    by (simp add: downEnv_def)
  have i2: "invoke calmEnv tr m h () = Inr ()" for tr m h
    by (simp add: calmEnv_def)
  note n = Notify_private [where cl = ?cl and tr = ?tr and req = "()"]
  from n [where ev = calmEnv and a = "''10.0.0.9:7000''" and t = "''10.0.0.9:8300''"
        and ?e0.0 = "TransportError []" and ?e1.0 = "TransportError []"] r9 d1 fr i2
  have w1: "Notify calmEnv ''10.0.0.9:7000'' () ?cl ?tr =
     (Inr (), ?cl, ?tr @ [Resolved ''10.0.0.9:7000'', Dialed ''10.0.0.9:8300'' 1,
                          Invoked MNotifyPeer 1, Closed 1])"
    by simp
  from n [where ev = downEnv and a = "''10.0.0.9:7000''" and t = "''10.0.0.9:8300''"
        and ?e0.0 = "TransportError []" and ?e1.0 = "TransportError []"] r9 d2 fr i1
  have w2: "Notify downEnv ''10.0.0.9:7000'' () ?cl ?tr =
     (Inl (TransportError ''rejected''), ?cl,
      ?tr @ [Resolved ''10.0.0.9:7000'', Dialed ''10.0.0.9:8300'' 1,
             Invoked MNotifyPeer 1, Closed 1])"
    by simp
  from n [where ev = downEnv and a = "''not-an-address''" and t = "[]"
        and ?e0.0 = "AddrError ''missing port in address'' ''not-an-address''"
        and ?e1.0 = "TransportError []"] r0
  have w3: "snd (snd (Notify downEnv ''not-an-address'' () ?cl ?tr))
      = ?tr @ [Resolved ''not-an-address'']"
    by simp
  from n [where ev = downEnv and a = "''10.0.0.6:7000''" and t = "''10.0.0.6:8300''"
        and ?e0.0 = "TransportError []" and ?e1.0 = "TransportError ''unreachable''"] r6 d3
  have w4: "snd (snd (Notify downEnv ''10.0.0.6:7000'' () ?cl ?tr))
      = ?tr @ [Resolved ''10.0.0.6:7000'', DialFailed ''10.0.0.6:8300'']"
    by simp
  from n [where ev = calmEnv and a = "[]" and t = "[]"
        and ?e0.0 = "TransportError []" and ?e1.0 = "TransportError []"] ok
  have w5: "leaderConn ?cl \<noteq> Some (freshConn ?tr)" by blast
  from lc ok w1 w2 w3 w4 w5 show ?thesis by simp
qed

text \<open>
  C9. When the cache is bound to \<open>a\<close> with the handle \<open>h\<close> and \<open>getConn b\<close> with another
  address fails in the resolver, \<open>h\<close> has been closed and the client is unchanged: still
  bound to \<open>a\<close>, still holding \<open>h\<close>. The next \<open>getConn a\<close> answers the closed \<open>h\<close>
  without an error, a resolution or a dial.
\<close>

theorem getConn_resolve_failure:
  assumes bound: "leaderConn cl = Some h" "leaderAddr cl = a"
    and diff: "b \<noteq> a"
    and fails: "rpc cl b = Inl e"
  shows "getConn ev b cl tr
           = (Inl (Wrapped ''resolve address: '' e), cl, tr @ [Closed h, Resolved b]) \<and>
         getConn ev a cl (tr @ [Closed h, Resolved b])
           = (Inr h, cl, tr @ [Closed h, Resolved b])"
proof -
  from diff bound(2) have d: "b \<noteq> leaderAddr cl" by simp
  have failed: "getConn ev b cl tr
      = (Inl (Wrapped ''resolve address: '' e), cl, tr @ [Closed h, Resolved b])"
    using getConn_other_addr [OF bound(1) d, of ev tr] fails by simp
  have again: "getConn ev a cl (tr @ [Closed h, Resolved b])
      = (Inr h, cl, tr @ [Closed h, Resolved b])"
    by (rule getConn_hit [OF bound])
  from failed again show ?thesis by simp
qed

theorem getConn_resolve_failure_witness:
  "leaderConn (fst boundState) = Some 0 \<and>
   leaderAddr (fst boundState) = ''10.0.0.5:7000'' \<and>
   Closed 0 \<notin> set (snd boundState) \<and>
   rpc (fst boundState) ''not-an-address''
     = Inl (AddrError ''missing port in address'' ''not-an-address'') \<and>
   getConn calmEnv ''not-an-address'' (fst boundState) (snd boundState)
     = (Inl (Wrapped ''resolve address: ''
              (AddrError ''missing port in address'' ''not-an-address'')),
        fst boundState, snd boundState @ [Closed 0, Resolved ''not-an-address'']) \<and>
   getConn calmEnv ''10.0.0.5:7000'' (fst boundState)
       (snd boundState @ [Closed 0, Resolved ''not-an-address''])
     = (Inr 0, fst boundState, snd boundState @ [Closed 0, Resolved ''not-an-address''])"
proof -
  have lc: "leaderConn (fst boundState) = Some 0" by code_simp
  have la: "leaderAddr (fst boundState) = ''10.0.0.5:7000''" by code_simp
  have live: "Closed 0 \<notin> set (snd boundState)" by code_simp
  have diff: "''not-an-address'' \<noteq> ''10.0.0.5:7000''" by simp
  have r: "rpc (fst boundState) ''not-an-address''
      = Inl (AddrError ''missing port in address'' ''not-an-address'')" by code_simp
  from getConn_resolve_failure [OF lc la diff r, of calmEnv "snd boundState"] lc la live r
  show ?thesis by simp
qed

end
